theory Spec2Isabelle
  imports Main "HOL-Library.AList"
begin

section \<open>The CAS handler of synapse: \<open>synapse/handlers/cas_handler.py\<close>\<close>

text \<open>
  A shallow embedding of the class \<open>CasHandler\<close>. Python strings are \<open>string\<close>
  (a list of bytes, the UTF-8 encoding of the text), \<open>Optional[str]\<close> is
  \<open>string option\<close>, a \<open>dict\<close> is an association list in insertion order with
  distinct keys (\<open>AList.update\<close> stores, \<open>AList.delete\<close> removes, \<open>map_of\<close> reads),
  and every exception the code can raise is a value of \<open>failure\<close>, returned on the
  left of a sum.
\<close>

subsection \<open>Strings: \<open>str.endswith\<close>, \<open>in\<close>, \<open>str.split\<close>\<close>

definition endswith :: "string \<Rightarrow> string \<Rightarrow> bool" where
  "endswith s suffix =
     (length suffix \<le> length s \<and> drop (length s - length suffix) s = suffix)"

text \<open>\<open>s.split(sep)\<close> for a separator of one character: the pieces between the
  separators, in order; the empty string gives one empty piece.\<close>

fun split :: "char \<Rightarrow> string \<Rightarrow> string list" where
  "split sep [] = [[]]"
| "split sep (c # cs) =
     (if c = sep then [] # split sep cs
      else (case split sep cs of
              [] \<Rightarrow> [[c]]
            | w # ws \<Rightarrow> (c # w) # ws))"

text \<open>\<open>xs[i]\<close> on a Python list, for an index that is not negative: out of
  range is an \<open>IndexError\<close>, here \<open>None\<close>.\<close>

fun getitem :: "'a list \<Rightarrow> nat \<Rightarrow> 'a option" where
  "getitem [] i = None"
| "getitem (x # xs) 0 = Some x"
| "getitem (x # xs) (Suc i) = getitem xs i"

subsection \<open>Data\<close>

text \<open>An \<open>xml.etree.ElementTree.Element\<close>: its tag (a namespace expanded to
  \<open>{uri}local\<close>), its text (\<open>None\<close> when the element has none) and its children. The field \<open>text\<close> is \<open>text_of\<close> here.\<close>

datatype element = Element (tag: string) (text_of: "string option") (children: "element list")

type_synonym attributes = "(string \<times> string option) list"

datatype codes = UNAUTHORIZED

text \<open>The exceptions that leave the handler's methods: \<open>LoginError(code, msg,
  errcode)\<close>, any failure of the HTTP client other than a partial download (carried as
  it is), the \<open>AssertionError\<close> of \<open>handle_ticket\<close>, the \<open>RuntimeError\<close> of the
  attribute callback, and the \<open>MappingException\<close> of the SSO handler.\<close>

datatype failure =
    LoginError nat string codes
  | HttpFailure string
  | AssertionError
  | RuntimeError string
  | MappingException string

text \<open>The configuration read by \<open>__init__\<close>. \<open>cas_displayname_attribute\<close> is
  \<open>None\<close> when the option is not set; \<open>cas_required_attributes\<close> maps a name to
  the value it must have, or to \<open>None\<close> when only its presence is required.\<close>

record cas_config =
  hostname :: string
  cas_server_url :: string
  cas_service_url :: string
  cas_displayname_attribute :: "string option"
  cas_required_attributes :: "(string \<times> string option) list"

subsection \<open>\<open>_parse_cas_response\<close>\<close>

text \<open>Lines 145 to 147: the key under which an attribute is stored. \<open>None\<close> is
  the \<open>IndexError\<close> of \<open>tag.split("}")[1]\<close>.\<close>

definition attribute_key :: "string \<Rightarrow> string option" where
  "attribute_key t =
     (if CHR ''}'' \<in> set t then getitem (split (CHR ''}'') t) 1 else Some t)"

text \<open>Lines 140 to 148, the loop over the children of an \<open>attributes\<close> element;
  \<open>None\<close> is an exception raised on the way.\<close>

fun store_attributes :: "element list \<Rightarrow> attributes \<Rightarrow> attributes option" where
  "store_attributes [] attrs = Some attrs"
| "store_attributes (a # as) attrs =
     (case attribute_key (tag a) of
        None \<Rightarrow> None
      | Some k \<Rightarrow> store_attributes as (AList.update k (text_of a) attrs))"

text \<open>Lines 136 to 148, the loop over the children of the first child of the root,
  on the pair of the variables \<open>user\<close> and \<open>attributes\<close>.\<close>

fun scan_children ::
  "element list \<Rightarrow> string option \<times> attributes \<Rightarrow> (string option \<times> attributes) option" where
  "scan_children [] st = Some st"
| "scan_children (child # rest) (user, attrs) =
     (let user' = (if endswith (tag child) ''user'' then text_of child else user) in
      if endswith (tag child) ''attributes'' then
        (case store_attributes (children child) attrs of
           None \<Rightarrow> None
         | Some attrs' \<Rightarrow> scan_children rest (user', attrs'))
      else scan_children rest (user', attrs))"

definition invalid_response :: failure where
  "invalid_response = LoginError 401 ''Invalid CAS response'' UNAUTHORIZED"

definition unsuccessful_response :: failure where
  "unsuccessful_response = LoginError 401 ''Unsuccessful CAS response'' UNAUTHORIZED"

text \<open>Lines 133 to 158 on the parsed root. Every exception inside the \<open>try\<close> block
  (the explicit ones, the \<open>IndexError\<close> of \<open>root[0]\<close> on a root without children)
  becomes the \<open>Invalid CAS response\<close> error; \<open>success\<close> is tested after the block.\<close>

definition parse_root :: "element \<Rightarrow> failure + string \<times> attributes" where
  "parse_root root =
     (if \<not> endswith (tag root) ''serviceResponse'' then Inl invalid_response
      else
        (case children root of
           [] \<Rightarrow> Inl invalid_response
         | first # _ \<Rightarrow>
             (let success = endswith (tag first) ''authenticationSuccess'' in
              case scan_children (children first) (None, []) of
                None \<Rightarrow> Inl invalid_response
              | Some (None, attrs) \<Rightarrow> Inl invalid_response
              | Some (Some user, attrs) \<Rightarrow>
                  if \<not> success then Inl unsuccessful_response
                  else Inr (user, attrs))))"

text \<open>\<open>ET.fromstring\<close> is the XML parser of the standard library: a parameter,
  giving \<open>None\<close> where it raises \<open>ParseError\<close>.\<close>

definition parse_cas_response ::
  "(string \<Rightarrow> element option) \<Rightarrow> string \<Rightarrow> failure + string \<times> attributes" where
  "parse_cas_response fromstring cas_response_body =
     (case fromstring cas_response_body of
        None \<Rightarrow> Inl invalid_response
      | Some root \<Rightarrow> parse_root root)"

subsection \<open>\<open>urllib.parse.urlencode\<close>\<close>

text \<open>The standard library's \<open>quote_plus\<close> with its default arguments, as of
  Python 3.7, on the UTF-8 bytes of the string: letters, digits and \<open>_.-~\<close> stay, a
  space becomes \<open>+\<close>, every other byte becomes \<open>%XX\<close> in upper-case hexadecimal.\<close>

definition always_safe :: "char \<Rightarrow> bool" where
  "always_safe c =
     (c \<in> set (''ABCDEFGHIJKLMNOPQRSTUVWXYZ'' @ ''abcdefghijklmnopqrstuvwxyz'' @
                ''0123456789'' @ ''_.-~''))"

definition hex_digit :: "nat \<Rightarrow> char" where
  "hex_digit n = ''0123456789ABCDEF'' ! (n mod 16)"

definition quote_byte :: "char \<Rightarrow> string" where
  "quote_byte c =
     (if always_safe c then [c]
      else if c = CHR '' '' then ''+''
      else [CHR ''%'', hex_digit (of_char c div 16), hex_digit (of_char c)])"

definition quote_plus :: "string \<Rightarrow> string" where
  "quote_plus s = concat (map quote_byte s)"

fun join :: "string \<Rightarrow> string list \<Rightarrow> string" where
  "join sep [] = []"
| "join sep [x] = x"
| "join sep (x # y # ys) = x @ sep @ join sep (y # ys)"

text \<open>\<open>urlencode\<close> of a dictionary of strings: the pairs \<open>key=value\<close>, both
  quoted, in the dictionary's order, joined by \<open>&\<close>.\<close>

definition urlencode :: "(string \<times> string) list \<Rightarrow> string" where
  "urlencode query = join ''&'' (map (\<lambda>(k, v). quote_plus k @ ''='' @ quote_plus v) query)"

subsection \<open>\<open>_build_service_param\<close> and \<open>get_redirect_url\<close>\<close>

definition build_service_param :: "cas_config \<Rightarrow> (string \<times> string) list \<Rightarrow> string" where
  "build_service_param cfg args =
     cas_service_url cfg @ ''/_matrix/client/r0/login/cas/ticket'' @ ''?'' @ urlencode args"

definition get_redirect_url :: "cas_config \<Rightarrow> (string \<times> string) list \<Rightarrow> string" where
  "get_redirect_url cfg service_args =
     (let args = urlencode [(''service'', build_service_param cfg service_args)]
      in cas_server_url cfg @ ''/login?'' @ args)"

subsection \<open>The collaborators\<close>

text \<open>What \<open>get_raw\<close> of the HTTP client does with a request: it returns the body,
  raises \<open>PartialDownloadError\<close> carrying the part of the body it received, or fails
  in another way.\<close>

datatype http_result = Body string | PartialDownloadError string | Failed string

record user_attributes =
  localpart :: string
  display_name :: "string option"

text \<open>The objects the handler calls and whose code is elsewhere: the HTTP client,
  the XML parser, \<open>map_username_to_mxid_localpart\<close>, the data store's
  \<open>get_users_by_id_case_insensitive\<close> (a dictionary from the stored user ids that
  match), and the SSO handler's \<open>get_mxid_from_sso\<close>, which receives the two
  callbacks of \<open>_map_cas_user_to_matrix_user\<close>.\<close>

record environment =
  config :: cas_config
  get_raw :: "string \<Rightarrow> (string \<times> string) list \<Rightarrow> http_result"
  fromstring :: "string \<Rightarrow> element option"
  map_username_to_mxid_localpart :: "string \<Rightarrow> string"
  get_users_by_id_case_insensitive :: "string \<Rightarrow> (string \<times> string) list"
  get_mxid_from_sso ::
    "string \<Rightarrow> string \<Rightarrow> string \<Rightarrow> string \<Rightarrow>
     (int \<Rightarrow> failure + user_attributes) \<Rightarrow> (unit \<Rightarrow> string option) \<Rightarrow> failure + string"

subsection \<open>\<open>_validate_ticket\<close>\<close>

definition unauthorized :: failure where
  "unauthorized = LoginError 401 ''Unauthorized'' UNAUTHORIZED"

text \<open>\<open>attributes.pop(key, None)\<close>: the value stored under the key (\<open>None\<close> when
  there is none, or when the key itself is \<open>None\<close>) and the dictionary without it.\<close>

definition pop :: "string option \<Rightarrow> attributes \<Rightarrow> string option \<times> attributes" where
  "pop key attrs =
     (case key of
        None \<Rightarrow> (None, attrs)
      | Some k \<Rightarrow>
          (case map_of attrs k of
             None \<Rightarrow> (None, attrs)
           | Some v \<Rightarrow> (v, AList.delete k attrs)))"

text \<open>Lines 103 to 113, the loop over the required attributes: \<open>Some\<close> of the
  error it raises, \<open>None\<close> when it runs to its end.\<close>

fun check_required_attributes ::
  "(string \<times> string option) list \<Rightarrow> attributes \<Rightarrow> failure option" where
  "check_required_attributes [] attrs = None"
| "check_required_attributes ((required_attribute, required_value) # rest) attrs =
     (case map_of attrs required_attribute of
        None \<Rightarrow> Some unauthorized
      | Some actual_value \<Rightarrow>
          (case required_value of
             None \<Rightarrow> check_required_attributes rest attrs
           | Some v \<Rightarrow>
               if Some v \<noteq> actual_value then Some unauthorized
               else check_required_attributes rest attrs))"

text \<open>Lines 100 to 115, what follows the download.\<close>

definition validate_body :: "environment \<Rightarrow> string \<Rightarrow> failure + string \<times> string option" where
  "validate_body env body =
     (case parse_cas_response (fromstring env) body of
        Inl e \<Rightarrow> Inl e
      | Inr (user, attrs) \<Rightarrow>
          (case pop (cas_displayname_attribute (config env)) attrs of
             (displayname, attrs') \<Rightarrow>
               (case check_required_attributes (cas_required_attributes (config env)) attrs' of
                  Some e \<Rightarrow> Inl e
                | None \<Rightarrow> Inr (user, displayname))))"

definition validate_ticket ::
  "environment \<Rightarrow> string \<Rightarrow> (string \<times> string) list \<Rightarrow> failure + string \<times> string option" where
  "validate_ticket env ticket service_args =
     (let uri = cas_server_url (config env) @ ''/proxyValidate'';
          args = [(''ticket'', ticket),
                  (''service'', build_service_param (config env) service_args)]
      in case get_raw env uri args of
           Body body \<Rightarrow> validate_body env body
         | PartialDownloadError response \<Rightarrow> validate_body env response
         | Failed e \<Rightarrow> Inl (HttpFailure e))"

subsection \<open>\<open>_map_cas_user_to_matrix_user\<close> and its two callbacks\<close>

definition cas_response_to_user_attributes ::
  "environment \<Rightarrow> string \<Rightarrow> string option \<Rightarrow> int \<Rightarrow> failure + user_attributes" where
  "cas_response_to_user_attributes env remote_user_id displayname failures =
     (let lp = map_username_to_mxid_localpart env remote_user_id
      in if failures \<noteq> 0
         then Inl (RuntimeError ''CAS is not expected to de-duplicate Matrix IDs'')
         else Inr \<lparr>localpart = lp, display_name = displayname\<rparr>)"

text \<open>Modelled from the spec: \<open>UserID(localpart, domain).to_string()\<close> of
  \<open>synapse.types\<close>, which is not among the sources; the spec gives a local user id
  the form \<open>@localpart:domain\<close>.\<close>

definition to_string :: "string \<Rightarrow> string \<Rightarrow> string" where
  "to_string lp domain = ''@'' @ lp @ '':'' @ domain"

definition grandfather_existing_users :: "environment \<Rightarrow> string \<Rightarrow> unit \<Rightarrow> string option" where
  "grandfather_existing_users env remote_user_id u =
     (let user_id = to_string (map_username_to_mxid_localpart env remote_user_id)
                              (hostname (config env));
          users = get_users_by_id_case_insensitive env user_id
      in case users of
           [] \<Rightarrow> None
         | (registered_user_id, _) # _ \<Rightarrow> Some registered_user_id)"

definition map_cas_user_to_matrix_user ::
  "environment \<Rightarrow> string \<Rightarrow> string option \<Rightarrow> string \<Rightarrow> string \<Rightarrow> failure + string" where
  "map_cas_user_to_matrix_user env remote_user_id displayname user_agent ip_address =
     get_mxid_from_sso env ''cas'' remote_user_id user_agent ip_address
       (cas_response_to_user_attributes env remote_user_id displayname)
       (grandfather_existing_users env remote_user_id)"

subsection \<open>\<open>handle_ticket\<close>\<close>

text \<open>The request, as far as the handler reads it: what \<open>get_user_agent("")\<close> and
  \<open>get_ip_from_request\<close> give.\<close>

record request =
  user_agent :: string
  ip :: string

text \<open>The one call with which \<open>handle_ticket\<close> ends when it raises nothing.\<close>

datatype response =
    Render_error request string string
  | Complete_sso_ui_auth string string request
  | Complete_sso_login string request string

text \<open>The truth value of an \<open>Optional[str]\<close>: \<open>None\<close> and the empty string are
  false. \<open>truthy\<close> gives the string when it is true.\<close>

definition truthy :: "string option \<Rightarrow> string option" where
  "truthy x = (case x of None \<Rightarrow> None | Some s \<Rightarrow> if s = [] then None else Some s)"

definition handle_ticket ::
  "environment \<Rightarrow> request \<Rightarrow> string \<Rightarrow> string option \<Rightarrow> string option \<Rightarrow> failure + response" where
  "handle_ticket env req ticket client_redirect_url session =
     (let args0 = (case truthy client_redirect_url of
                     None \<Rightarrow> []
                   | Some url \<Rightarrow> AList.update ''redirectUrl'' url []);
          args = (case truthy session of
                    None \<Rightarrow> args0
                  | Some s \<Rightarrow> AList.update ''session'' s args0)
      in case validate_ticket env ticket args of
           Inl e \<Rightarrow> Inl e
         | Inr (username, user_display_name) \<Rightarrow>
             (case map_cas_user_to_matrix_user env username user_display_name
                     (user_agent req) (ip req) of
                Inl (MappingException e) \<Rightarrow> Inr (Render_error req ''mapping_error'' e)
              | Inl e \<Rightarrow> Inl e
              | Inr user_id \<Rightarrow>
                  (case truthy session of
                     Some s \<Rightarrow> Inr (Complete_sso_ui_auth user_id s req)
                   | None \<Rightarrow>
                       (case truthy client_redirect_url of
                          None \<Rightarrow> Inl AssertionError
                        | Some url \<Rightarrow> Inr (Complete_sso_login user_id req url)))))"

subsection \<open>The local name of a tag, as the specification words it\<close>

text \<open>Not a function of the source: the specification's reading of a tag, "the
  substring after the last \<open>}\<close> or the whole string if absent", kept apart under
  its own name to be compared with what the code computes.\<close>

definition spec_local_name :: "string \<Rightarrow> string" where
  "spec_local_name t = rev (takeWhile (\<lambda>c. c \<noteq> CHR ''}'') (rev t))"

subsection \<open>Example inputs\<close>

text \<open>A response of a CAS server as \<open>ET.fromstring\<close> gives it: a root and a first
  child in the CAS namespace, with a \<open>user\<close> element and an \<open>attributes\<close> element
  holding one element per attribute.\<close>

definition cas_response ::
  "string \<Rightarrow> string \<Rightarrow> string \<Rightarrow> (string \<times> string option) list \<Rightarrow> element" where
  "cas_response root_name first_name user attrs =
     Element (''{http://www.yale.edu/tp/cas}'' @ root_name) None
       [Element (''{http://www.yale.edu/tp/cas}'' @ first_name) None
          [Element ''{http://www.yale.edu/tp/cas}user'' (Some user) [],
           Element ''{http://www.yale.edu/tp/cas}attributes'' None
             (map (\<lambda>(k, v). Element (''{http://www.yale.edu/tp/cas}'' @ k) v []) attrs)]]"

definition example_config :: "string option \<Rightarrow> (string \<times> string option) list \<Rightarrow> cas_config" where
  "example_config displayname_attribute required_attributes =
     \<lparr>hostname = ''example.org'',
      cas_server_url = ''https://cas.example.org'',
      cas_service_url = ''https://matrix.example.org'',
      cas_displayname_attribute = displayname_attribute,
      cas_required_attributes = required_attributes\<rparr>"

text \<open>An environment for the examples: the download succeeds and parses to the given
  root, the data store holds the one account \<open>@Alice:example.org\<close>, and the SSO
  handler takes the id the second callback finds, or else builds one from what the
  first callback returns at zero failures.\<close>

definition example_env :: "cas_config \<Rightarrow> element \<Rightarrow> environment" where
  "example_env cfg root =
     \<lparr>config = cfg,
      get_raw = (\<lambda>uri args. Body ''<cas:serviceResponse/>''),
      fromstring = (\<lambda>body. Some root),
      map_username_to_mxid_localpart = (\<lambda>u. if u = ''Alice'' then ''alice'' else u),
      get_users_by_id_case_insensitive =
        (\<lambda>user_id. if user_id = ''@alice:example.org''
                    then [(''@Alice:example.org'', ''$2b$12$hash'')] else []),
      get_mxid_from_sso =
        (\<lambda>provider remote_user_id agent address attributes_cb grandfather_cb.
           case grandfather_cb () of
             Some user_id \<Rightarrow> Inr user_id
           | None \<Rightarrow>
               (case attributes_cb 0 of
                  Inl e \<Rightarrow> Inl e
                | Inr ua \<Rightarrow> Inr (to_string (localpart ua) (hostname cfg))))\<rparr>"

section \<open>Properties\<close>

subsection \<open>\<open>str.split\<close> and the attribute keys\<close>

lemma split_not_Nil: "split sep s \<noteq> []"
  by (induction s) (auto split: list.splits)

lemma split_two: "sep \<in> set s \<Longrightarrow> \<exists>a b rest. split sep s = a # b # rest"
proof (induction s)
  case Nil
  then show ?case by simp
next
  case (Cons c cs)
  show ?case
  proof (cases "c = sep")
    case True
    obtain w ws where "split sep cs = w # ws"
      using split_not_Nil [of sep cs] by (cases "split sep cs") auto
    with True show ?thesis by simp
  next
    case False
    with Cons.prems have "sep \<in> set cs" by simp
    from Cons.IH [OF this] obtain a b rest where "split sep cs = a # b # rest" by blast
    with False show ?thesis by simp
  qed
qed

lemma split_no_sep: "sep \<notin> set s \<Longrightarrow> split sep s = [s]"
  by (induction s) auto

lemma split_first_sep: "sep \<notin> set a \<Longrightarrow> split sep (a @ sep # b) = a # split sep b"
  by (induction a) auto

text \<open>The index 1 of line 147 is always in range: the key is defined for every tag.\<close>

lemma attribute_key_total: "\<exists>k. attribute_key t = Some k"
proof (cases "CHR ''}'' \<in> set t")
  case True
  from split_two [OF this] obtain a b rest where "split (CHR ''}'') t = a # b # rest"
    by blast
  with True show ?thesis by (simp add: attribute_key_def)
next
  case False
  then show ?thesis by (simp add: attribute_key_def)
qed

lemma attribute_key_plain: "CHR ''}'' \<notin> set t \<Longrightarrow> attribute_key t = Some t"
  by (simp add: attribute_key_def)

text \<open>A tag with one closing brace, as \<open>{uri}local\<close> is for a namespace without a
  brace of its own, is stored under what follows the brace.\<close>

lemma attribute_key_one_brace:
  assumes "CHR ''}'' \<notin> set ns" and "CHR ''}'' \<notin> set name"
  shows "attribute_key (ns @ CHR ''}'' # name) = Some name"
  using assms by (simp add: attribute_key_def split_first_sep split_no_sep)

text \<open>With a second closing brace the key is the piece between the first two.\<close>

lemma attribute_key_second_piece:
  assumes "CHR ''}'' \<notin> set ns" and "CHR ''}'' \<notin> set piece"
  shows "attribute_key (ns @ CHR ''}'' # piece @ CHR ''}'' # rest) = Some piece"
  using assms by (simp add: attribute_key_def split_first_sep)

lemma attribute_key_example:
  "attribute_key ''{http://example.org}department'' = Some ''department''"
  by (simp add: attribute_key_def)

subsection \<open>The two loops of \<open>_parse_cas_response\<close>\<close>

lemma store_attributes_total: "\<exists>attrs'. store_attributes as attrs = Some attrs'"
proof (induction as arbitrary: attrs)
  case Nil
  then show ?case by simp
next
  case (Cons a as)
  obtain k where "attribute_key (tag a) = Some k"
    using attribute_key_total by blast
  with Cons.IH show ?case by simp
qed

text \<open>The loop over the children raises nothing, and leaves in \<open>user\<close> the text of
  the last child whose tag ends with \<open>user\<close>.\<close>

lemma scan_children_user:
  "\<exists>attrs'. scan_children cs (user, attrs) =
     Some (foldl (\<lambda>u c. if endswith (tag c) ''user'' then text_of c else u) user cs, attrs')"
proof (induction cs arbitrary: user attrs)
  case Nil
  then show ?case by simp
next
  case (Cons c cs)
  obtain a' where a': "store_attributes (children c) attrs = Some a'"
    using store_attributes_total by blast
  show ?case
    using Cons.IH [of "if endswith (tag c) ''user'' then text_of c else user" a']
      Cons.IH [of "if endswith (tag c) ''user'' then text_of c else user" attrs] a'
    by (simp add: Let_def)
qed

lemma foldl_no_user:
  "\<forall>c \<in> set cs. \<not> endswith (tag c) ''user'' \<Longrightarrow>
   foldl (\<lambda>u c. if endswith (tag c) ''user'' then text_of c else u) user cs = user"
  by (induction cs arbitrary: user) auto

lemma scan_children_last_user:
  assumes "cs = before @ [Element utag utext sub] @ after"
    and "endswith utag ''user''"
    and "\<forall>c \<in> set after. \<not> endswith (tag c) ''user''"
  shows "\<exists>attrs'. scan_children cs (user, attrs) = Some (utext, attrs')"
  using scan_children_user [of cs user attrs] assms
  by (simp add: foldl_no_user)

lemma scan_children_no_user:
  assumes "\<forall>c \<in> set cs. \<not> endswith (tag c) ''user''"
  shows "\<exists>attrs'. scan_children cs (user, attrs) = Some (user, attrs')"
  using scan_children_user [of cs user attrs] assms
  by (simp add: foldl_no_user)

subsection \<open>The loop over the required attributes\<close>

text \<open>The loop raises, and then \<open>Unauthorized\<close>, exactly when a required attribute
  is not a key of the dictionary it reads, or is one and the required value is not
  \<open>None\<close> and differs from the stored one.\<close>

lemma check_required_attributes_iff:
  "check_required_attributes required attrs = Some e \<longleftrightarrow>
     e = unauthorized \<and>
     (\<exists>(k, v) \<in> set required.
        map_of attrs k = None \<or> (\<exists>w. v = Some w \<and> map_of attrs k \<noteq> Some (Some w)))"
  by (induction required attrs rule: check_required_attributes.induct)
     (auto split: option.splits)

text \<open>What \<open>attributes.pop\<close> leaves: the display-name key is gone, every other
  key reads as before.\<close>

lemma pop_lookup:
  "map_of (snd (pop key attrs)) k = (if key = Some k then None else map_of attrs k)"
  by (auto simp add: pop_def delete_conv' split: option.splits)

text \<open>So, once the response has parsed, \<open>_validate_ticket\<close> raises after the
  download exactly the \<open>Unauthorized\<close> error, and exactly when a required
  attribute is the display-name attribute, is absent from the response, or has a
  required value other than \<open>None\<close> and other than the response's.\<close>

lemma validate_body_unauthorized_iff:
  assumes "parse_cas_response (fromstring env) body = Inr (user, attrs)"
  shows "validate_body env body = Inl e \<longleftrightarrow>
           e = unauthorized \<and>
           (\<exists>(k, v) \<in> set (cas_required_attributes (config env)).
              cas_displayname_attribute (config env) = Some k
              \<or> map_of attrs k = None
              \<or> (\<exists>w. v = Some w \<and> map_of attrs k \<noteq> Some (Some w)))"
proof -
  obtain d attrs' where p: "pop (cas_displayname_attribute (config env)) attrs = (d, attrs')"
    by (cases "pop (cas_displayname_attribute (config env)) attrs")
  then have look: "map_of attrs' k =
      (if cas_displayname_attribute (config env) = Some k then None else map_of attrs k)" for k
    using pop_lookup [of "cas_displayname_attribute (config env)" attrs k] by simp
  have entry: "(map_of attrs' k = None \<or> (\<exists>w. v = Some w \<and> map_of attrs' k \<noteq> Some (Some w)))
      \<longleftrightarrow> (cas_displayname_attribute (config env) = Some k
           \<or> map_of attrs k = None
           \<or> (\<exists>w. v = Some w \<and> map_of attrs k \<noteq> Some (Some w)))" for k v
    by (auto simp add: look)
  have "validate_body env body = Inl e \<longleftrightarrow>
          check_required_attributes (cas_required_attributes (config env)) attrs' = Some e"
    using assms p by (simp add: validate_body_def split: option.splits)
  also have "\<dots> \<longleftrightarrow> e = unauthorized \<and>
           (\<exists>(k, v) \<in> set (cas_required_attributes (config env)).
              cas_displayname_attribute (config env) = Some k
              \<or> map_of attrs k = None
              \<or> (\<exists>w. v = Some w \<and> map_of attrs k \<noteq> Some (Some w)))"
    by (simp only: check_required_attributes_iff entry)
  finally show ?thesis .
qed

subsection \<open>Dictionaries with the same keys in the same order\<close>

lemma dict_eqI:
  assumes "distinct (map fst a)" and "map fst a = map fst b" and "map_of a = map_of b"
  shows "a = b"
  using assms
proof (induction a arbitrary: b)
  case Nil
  then show ?case by simp
next
  case (Cons x a)
  then obtain y b' where b: "b = y # b'" by (cases b) auto
  obtain k v where x: "x = (k, v)" by (cases x)
  obtain k' v' where y: "y = (k', v')" by (cases y)
  from Cons.prems b x y have k: "k' = k" by simp
  from Cons.prems(3) have pointwise: "map_of (x # a) z = map_of b z" for z
    by (rule fun_cong)
  from pointwise [of k] b x y k have v: "v' = v" by simp
  from Cons.prems b x y k have keys: "map fst a = map fst b'" and dist: "distinct (map fst a)"
    and knot: "k \<notin> fst ` set a" by auto
  have "map_of a = map_of b'"
  proof (rule ext)
    fix z
    show "map_of a z = map_of b' z"
    proof (cases "z = k")
      case True
      from knot have "map_of a k = None" by (simp add: map_of_eq_None_iff)
      moreover from knot keys have "k \<notin> fst ` set b'" by (metis list.set_map)
      then have "map_of b' k = None" by (simp add: map_of_eq_None_iff)
      ultimately show ?thesis using True by simp
    next
      case False
      from pointwise [of z] b x y k v False show ?thesis by simp
    qed
  qed
  with Cons.IH [OF dist keys] have "a = b'" by simp
  with b x y k v show ?case by simp
qed

subsection \<open>\<open>quote_plus\<close> and \<open>urlencode\<close> lose nothing\<close>

text \<open>A quoted string holds neither \<open>&\<close> nor \<open>=\<close>, and a byte can be read back
  from what it is quoted to; so the string that \<open>urlencode\<close> writes gives back the
  dictionary, its order included.\<close>

lemma hex_digit_mem: "hex_digit n \<in> set ''0123456789ABCDEF''"
  unfolding hex_digit_def by (rule nth_mem) simp

lemma hex_digit_eq: "hex_digit m = hex_digit n \<Longrightarrow> m mod 16 = n mod 16"
proof -
  assume h: "hex_digit m = hex_digit n"
  have d: "distinct ''0123456789ABCDEF''" by simp
  have "m mod 16 < length ''0123456789ABCDEF''" "n mod 16 < length ''0123456789ABCDEF''"
    by simp_all
  with d h show ?thesis
    unfolding hex_digit_def by (simp only: nth_eq_iff_index_eq)
qed

lemma always_safe_not_reserved:
  "always_safe c \<Longrightarrow> c \<noteq> CHR ''&'' \<and> c \<noteq> CHR ''='' \<and> c \<noteq> CHR ''+'' \<and> c \<noteq> CHR ''%''"
  by (auto simp add: always_safe_def)

lemma hex_digit_not_separator:
  "CHR ''&'' \<noteq> hex_digit n" "CHR ''='' \<noteq> hex_digit n"
  using hex_digit_mem [of n] by auto

lemma quote_byte_no_separator:
  "CHR ''&'' \<notin> set (quote_byte c)" "CHR ''='' \<notin> set (quote_byte c)"
  using always_safe_not_reserved [of c]
  by (auto simp add: quote_byte_def hex_digit_not_separator)

lemma quote_plus_no_separator:
  "CHR ''&'' \<notin> set (quote_plus s)" "CHR ''='' \<notin> set (quote_plus s)"
  by (simp_all add: quote_plus_def quote_byte_no_separator)

lemma of_char_from_nibbles:
  assumes "(of_char c :: nat) div 16 mod 16 = of_char c' div 16 mod 16"
    and "(of_char c :: nat) mod 16 = of_char c' mod 16"
  shows "c = c'"
proof -
  have "(of_char c :: nat) < 256" "(of_char c' :: nat) < 256" by simp_all
  then have "(of_char c :: nat) div 16 < 16" "(of_char c' :: nat) div 16 < 16" by arith+
  with assms(1) have "(of_char c :: nat) div 16 = of_char c' div 16" by simp
  with assms(2) have "(of_char c :: nat) = of_char c'"
    by (metis div_mult_mod_eq)
  then show ?thesis by simp
qed

lemma quote_byte_prefix:
  assumes "quote_byte c @ xs = quote_byte c' @ ys"
  shows "c = c' \<and> xs = ys"
proof -
  have safe: "always_safe d \<Longrightarrow> quote_byte d = [d]" for d
    by (simp add: quote_byte_def)
  have space: "\<not> always_safe d \<Longrightarrow> d = CHR '' '' \<Longrightarrow> quote_byte d = ''+''" for d
    by (simp add: quote_byte_def)
  have other: "\<not> always_safe d \<Longrightarrow> d \<noteq> CHR '' '' \<Longrightarrow>
      quote_byte d = [CHR ''%'', hex_digit (of_char d div 16), hex_digit (of_char d)]" for d
    by (simp add: quote_byte_def)
  consider (ss) "always_safe c" "always_safe c'"
    | (sp) "always_safe c" "\<not> always_safe c'" "c' = CHR '' ''"
    | (so) "always_safe c" "\<not> always_safe c'" "c' \<noteq> CHR '' ''"
    | (ps) "\<not> always_safe c" "c = CHR '' ''" "always_safe c'"
    | (pp) "\<not> always_safe c" "c = CHR '' ''" "\<not> always_safe c'" "c' = CHR '' ''"
    | (po) "\<not> always_safe c" "c = CHR '' ''" "\<not> always_safe c'" "c' \<noteq> CHR '' ''"
    | (os) "\<not> always_safe c" "c \<noteq> CHR '' ''" "always_safe c'"
    | (op) "\<not> always_safe c" "c \<noteq> CHR '' ''" "\<not> always_safe c'" "c' = CHR '' ''"
    | (oo) "\<not> always_safe c" "c \<noteq> CHR '' ''" "\<not> always_safe c'" "c' \<noteq> CHR '' ''"
    by blast
  then show ?thesis
  proof cases
    case ss
    with assms show ?thesis by (simp add: safe)
  next
    case sp
    with assms always_safe_not_reserved [of c] show ?thesis by (simp add: safe space)
  next
    case so
    with assms always_safe_not_reserved [of c] show ?thesis by (simp add: safe other)
  next
    case ps
    with assms always_safe_not_reserved [of c'] show ?thesis by (simp add: safe space)
  next
    case pp
    with assms show ?thesis by (simp add: space)
  next
    case po
    with assms show ?thesis by (simp add: space other)
  next
    case os
    with assms always_safe_not_reserved [of c'] show ?thesis by (simp add: safe other)
  next
    case op
    with assms show ?thesis by (simp add: space other)
  next
    case oo
    with assms have hi: "hex_digit (of_char c div 16) = hex_digit (of_char c' div 16)"
      and lo: "hex_digit (of_char c) = hex_digit (of_char c')" and rest: "xs = ys"
      by (simp_all add: other)
    from hex_digit_eq [OF hi] hex_digit_eq [OF lo] have "c = c'"
      by (rule of_char_from_nibbles)
    with rest show ?thesis by simp
  qed
qed

lemma quote_byte_not_Nil: "quote_byte c \<noteq> []"
  by (simp add: quote_byte_def)

lemma quote_plus_inject: "quote_plus s = quote_plus t \<Longrightarrow> s = t"
proof (induction s arbitrary: t)
  case Nil
  then show ?case
    by (cases t) (simp_all add: quote_plus_def quote_byte_not_Nil)
next
  case (Cons c s)
  show ?case
  proof (cases t)
    case Nil
    with Cons.prems show ?thesis
      by (simp add: quote_plus_def quote_byte_not_Nil)
  next
    case (Cons c' t')
    with Cons.prems have "quote_byte c @ quote_plus s = quote_byte c' @ quote_plus t'"
      by (simp add: quote_plus_def)
    then have "c = c' \<and> quote_plus s = quote_plus t'"
      by (rule quote_byte_prefix)
    with Cons.IH Cons show ?thesis by simp
  qed
qed

lemma separator_split:
  assumes "xs @ c # r = ys @ c # r'" and "c \<notin> set xs" and "c \<notin> set ys"
  shows "xs = ys \<and> r = r'"
  using assms
proof (induction xs arbitrary: ys)
  case Nil
  then show ?case by (cases ys) auto
next
  case (Cons x xs)
  then show ?case by (cases ys) auto
qed

lemma encode_pair_inject:
  assumes "quote_plus k @ ''='' @ quote_plus v = quote_plus k' @ ''='' @ quote_plus v'"
  shows "k = k' \<and> v = v'"
proof -
  from assms
  have "quote_plus k @ CHR ''='' # quote_plus v = quote_plus k' @ CHR ''='' # quote_plus v'"
    by simp
  then have "quote_plus k = quote_plus k' \<and> quote_plus v = quote_plus v'"
    by (rule separator_split) (simp_all add: quote_plus_no_separator)
  then show ?thesis by (simp add: quote_plus_inject)
qed

lemma join_step:
  "join sep (x # xs) = x @ (if xs = [] then [] else sep @ join sep xs)"
  by (cases xs) simp_all

lemma join_inject:
  assumes "join ''&'' ps = join ''&'' qs"
    and "\<forall>p \<in> set ps. p \<noteq> [] \<and> CHR ''&'' \<notin> set p"
    and "\<forall>q \<in> set qs. q \<noteq> [] \<and> CHR ''&'' \<notin> set q"
  shows "ps = qs"
  using assms
proof (induction ps arbitrary: qs)
  case Nil
  then show ?case by (cases qs) (simp_all add: join_step)
next
  case (Cons p ps)
  from Cons.prems obtain q qs' where qs: "qs = q # qs'"
    by (cases qs) (simp_all add: join_step)
  from Cons.prems(1) qs have eq: "p @ (if ps = [] then [] else ''&'' @ join ''&'' ps)
       = q @ (if qs' = [] then [] else ''&'' @ join ''&'' qs')"
    by (simp only: join_step)
  from Cons.prems qs have np: "CHR ''&'' \<notin> set p" and nq: "CHR ''&'' \<notin> set q" by auto
  show ?case
  proof (cases "ps = []")
    case True
    show ?thesis
    proof (cases "qs' = []")
      case True
      with \<open>ps = []\<close> eq qs show ?thesis by simp
    next
      case False
      with \<open>ps = []\<close> eq have "p = q @ CHR ''&'' # join ''&'' qs'" by simp
      with np show ?thesis by simp
    qed
  next
    case False
    show ?thesis
    proof (cases "qs' = []")
      case True
      with False eq have "q = p @ CHR ''&'' # join ''&'' ps" by simp
      with nq show ?thesis by simp
    next
      case qne: False
      with False eq have "p @ CHR ''&'' # join ''&'' ps = q @ CHR ''&'' # join ''&'' qs'" by simp
      then have pq: "p = q \<and> join ''&'' ps = join ''&'' qs'"
        using np nq by (rule separator_split)
      from Cons.prems qs have "\<forall>p \<in> set ps. p \<noteq> [] \<and> CHR ''&'' \<notin> set p"
        and "\<forall>q \<in> set qs'. q \<noteq> [] \<and> CHR ''&'' \<notin> set q" by simp_all
      with pq have "ps = qs'" by (intro Cons.IH) simp_all
      with pq qs show ?thesis by simp
    qed
  qed
qed

lemma urlencode_inject:
  assumes "urlencode a = urlencode b"
  shows "a = b"
proof -
  let ?enc = "\<lambda>(k, v). quote_plus k @ ''='' @ quote_plus v"
  have shape: "?enc p \<noteq> [] \<and> CHR ''&'' \<notin> set (?enc p)" for p
    by (cases p) (simp add: quote_plus_no_separator)
  from assms have "join ''&'' (map ?enc a) = join ''&'' (map ?enc b)"
    by (simp only: urlencode_def)
  then have "map ?enc a = map ?enc b"
    by (rule join_inject) (use shape in auto)
  moreover have "inj ?enc"
  proof (rule injI)
    fix p q assume "?enc p = ?enc q"
    then show "p = q"
      using encode_pair_inject [of "fst p" "snd p" "fst q" "snd q"]
      by (simp add: case_prod_unfold prod_eq_iff)
  qed
  ultimately show ?thesis by (simp add: inj_map_eq_map)
qed

lemma build_service_param_inject:
  "build_service_param cfg a = build_service_param cfg b \<longleftrightarrow> a = b"
  by (auto simp add: build_service_param_def dest: urlencode_inject)

section \<open>The claims\<close>

lemmas evaluate_parse =
  parse_cas_response_def parse_root_def cas_response_def endswith_def attribute_key_def

lemmas evaluate_validate =
  validate_ticket_def validate_body_def evaluate_parse example_env_def example_config_def
  pop_def unauthorized_def

lemmas evaluate_urlencode =
  build_service_param_def get_redirect_url_def urlencode_def quote_plus_def quote_byte_def
  always_safe_def hex_digit_def

subsection \<open>C1: the display name is popped before the required attributes are checked\<close>

text \<open>
  Claim C1 says that the required attributes are checked against the attributes as
  parsed, before the display-name attribute was popped, so that an attribute that is
  both the display-name attribute and a required one raises no \<open>Unauthorized\<close>.
  The code checks the dictionary that line 101 has already popped from. With
  \<open>name\<close> as the display-name attribute and as a required attribute, and a response
  that carries \<open>name = Bob\<close>: the response parses to \<open>alice\<close> with that attribute,
  the loop run on the parsed dictionary raises nothing, and \<open>_validate_ticket\<close>
  raises \<open>LoginError(401, "Unauthorized")\<close>.
\<close>

theorem validate_ticket_pops_before_check:
  "parse_cas_response
     (fromstring (example_env (example_config (Some ''name'') [(''name'', None)])
        (cas_response ''serviceResponse'' ''authenticationSuccess'' ''alice''
           [(''name'', Some ''Bob'')])))
     ''<cas:serviceResponse/>''
   = Inr (''alice'', [(''name'', Some ''Bob'')])
   \<and> check_required_attributes [(''name'', None)] [(''name'', Some ''Bob'')] = None
   \<and> validate_ticket
       (example_env (example_config (Some ''name'') [(''name'', None)])
          (cas_response ''serviceResponse'' ''authenticationSuccess'' ''alice''
             [(''name'', Some ''Bob'')]))
       ''ST-1'' []
     = Inl (LoginError 401 ''Unauthorized'' UNAUTHORIZED)"
  by (simp add: evaluate_validate)

subsection \<open>C2: the key of an attribute is the local name of its tag\<close>

text \<open>The code against the specification's reading of a tag, on the two shapes a tag
  has: a name without a brace, and a name after a prefix closed by one brace.\<close>

lemma attribute_key_spec_local_name:
  assumes "CHR ''}'' \<notin> set ns" and "CHR ''}'' \<notin> set name"
  shows "attribute_key name = Some (spec_local_name name)"
    and "attribute_key (ns @ CHR ''}'' # name) = Some (spec_local_name (ns @ CHR ''}'' # name))"
proof -
  from assms(2) have "takeWhile (\<lambda>c. c \<noteq> CHR ''}'') (rev name) = rev name"
    by (auto simp add: takeWhile_eq_all_conv)
  then have "spec_local_name name = name"
    by (simp only: spec_local_name_def rev_rev_ident)
  with assms(2) show "attribute_key name = Some (spec_local_name name)"
    by (simp add: attribute_key_plain)
  from assms(2) have "takeWhile (\<lambda>c. c \<noteq> CHR ''}'') (rev name @ CHR ''}'' # rev ns) = rev name"
    by (induction name rule: rev_induct) auto
  then have "spec_local_name (ns @ CHR ''}'' # name) = name"
    by (simp only: spec_local_name_def rev_append rev.simps append_assoc append.simps
        rev_rev_ident)
  with assms
  show "attribute_key (ns @ CHR ''}'' # name) = Some (spec_local_name (ns @ CHR ''}'' # name))"
    by (simp add: attribute_key_one_brace)
qed

text \<open>
  Claim C2: lines 145 to 147 are a total function of the tag (the index 1 is in range
  on every string), and on every tag of an element they store the attribute under
  what follows the last \<open>}\<close>, or under the whole tag when it has none. The tag of
  an element is its local name, or \<open>{uri}\<close> before its local name: a local name
  holds no brace, and \<open>ET.fromstring\<close> refuses a document whose namespace name holds
  the closing brace (its parser, expat, separates the namespace from the name with
  that character and, since its release 2.4.5, rejects a namespace name that holds
  it), so that one brace at most closes the namespace. On a string with more closing
  braces, which is no tag, the piece kept is the one between the first two
  (\<open>attribute_key_second_piece\<close>).
\<close>

theorem attribute_key_element_tag:
  assumes "CHR ''}'' \<notin> set uri" and "CHR ''}'' \<notin> set name"
  shows "(\<exists>k. attribute_key t = Some k)
       \<and> attribute_key name = Some name
       \<and> attribute_key name = Some (spec_local_name name)
       \<and> attribute_key (''{'' @ uri @ ''}'' @ name) = Some name
       \<and> attribute_key (''{'' @ uri @ ''}'' @ name)
           = Some (spec_local_name (''{'' @ uri @ ''}'' @ name))"
proof (intro conjI)
  show "\<exists>k. attribute_key t = Some k"
    by (rule attribute_key_total)
  from assms(2) show "attribute_key name = Some name"
    by (rule attribute_key_plain)
  from assms(2) show "attribute_key name = Some (spec_local_name name)"
    by (rule attribute_key_spec_local_name(1) [OF assms(2)])
  from assms(1) have ns: "CHR ''}'' \<notin> set (CHR ''{'' # uri)" by simp
  from attribute_key_one_brace [OF ns assms(2)]
  show "attribute_key (''{'' @ uri @ ''}'' @ name) = Some name" by simp
  from attribute_key_spec_local_name(2) [OF ns assms(2)]
  show "attribute_key (''{'' @ uri @ ''}'' @ name)
          = Some (spec_local_name (''{'' @ uri @ ''}'' @ name))" by simp
qed

text \<open>C2 at the tag of the specification, \<open>{http://example.org}department\<close>, and at
  the same name in no namespace.\<close>

theorem attribute_key_element_tag_witness:
  "attribute_key ''{http://example.org}department'' = Some ''department''
   \<and> spec_local_name ''{http://example.org}department'' = ''department''
   \<and> attribute_key ''department'' = Some ''department''"
proof -
  let ?tag = "''{'' @ ''http://example.org'' @ ''}'' @ ''department''"
  have tag: "?tag = ''{http://example.org}department''"
    by simp
  have "CHR ''}'' \<notin> set ''http://example.org''" and "CHR ''}'' \<notin> set ''department''"
    by simp_all
  from attribute_key_element_tag [OF this, of "[]"]
  have plain: "attribute_key ''department'' = Some ''department''"
    and key: "attribute_key ?tag = Some ''department''"
    and spec: "attribute_key ?tag = Some (spec_local_name ?tag)"
    by blast+
  from key spec have "spec_local_name ?tag = ''department''"
    by (simp only: option.inject)
  with plain key show ?thesis
    unfolding tag by blast
qed

subsection \<open>C3: when \<open>_validate_ticket\<close> raises \<open>Unauthorized\<close>\<close>

text \<open>
  Claim C3 says that \<open>_validate_ticket\<close> raises the 401 \<open>Unauthorized\<close> error
  if and only if a required attribute is absent from the response's attributes, or is
  present with a value other than the required one, so that an attribute required for
  its presence alone passes with any value. The loop does that on the dictionary it
  reads (\<open>check_required_attributes_iff\<close>), but it reads it after the pop of line
  101 (\<open>validate_body_unauthorized_iff\<close>). With \<open>displayName\<close> as the display-name
  attribute, required for its presence, and \<open>department = eng\<close> required: the response
  carries both, \<open>department = eng\<close> and \<open>displayName = Bob B\<close>, and
  \<open>_validate_ticket\<close> raises \<open>Unauthorized\<close>.
\<close>

theorem validate_ticket_required_displayname:
  "validate_ticket
     (example_env
        (example_config (Some ''displayName'')
           [(''department'', Some ''eng''), (''displayName'', None)])
        (cas_response ''serviceResponse'' ''authenticationSuccess'' ''bob''
           [(''department'', Some ''eng''), (''displayName'', Some ''Bob B'')]))
     ''ST-2'' []
   = Inl (LoginError 401 ''Unauthorized'' UNAUTHORIZED)
   \<and> map_of [(''department'', Some ''eng''), (''displayName'', Some ''Bob B'')] ''department''
       = Some (Some ''eng'')
   \<and> map_of [(''department'', Some ''eng''), (''displayName'', Some ''Bob B'')] ''displayName''
       = Some (Some ''Bob B'')"
  by (simp add: evaluate_validate)

subsection \<open>C4: the tag of the root\<close>

text \<open>
  Claim C4, as stated, makes \<open>_parse_cas_response\<close> fail unless the local name of
  the root is \<open>serviceResponse\<close>. Line 133 tests \<open>root.tag.endswith\<close>: a root
  \<open>xserviceResponse\<close>, in no namespace, has another local name and is accepted.
\<close>

theorem parse_cas_response_longer_root_name:
  "spec_local_name ''xserviceResponse'' = ''xserviceResponse''
   \<and> parse_cas_response
       (\<lambda>body. Some (Element ''xserviceResponse'' None
                       [Element ''authenticationSuccess'' None
                          [Element ''user'' (Some ''alice'') []]]))
       ''<xserviceResponse>...</xserviceResponse>''
     = Inr (''alice'', [])"
  by (simp add: evaluate_parse spec_local_name_def)

text \<open>
  Claim C4, amended: for every body that parses, \<open>_parse_cas_response\<close> fails with
  the invalid-response error unless the tag of the root ends with
  \<open>serviceResponse\<close>; and when it does, the tag of the first child ends with
  \<open>authenticationSuccess\<close>, and the last of its children whose tag ends with
  \<open>user\<close> has the text \<open>user\<close>, the function returns that user.
\<close>

theorem parse_cas_response_root:
  assumes "parser body = Some root"
  shows "(\<not> endswith (tag root) ''serviceResponse'' \<longrightarrow>
            parse_cas_response parser body = Inl invalid_response)
       \<and> (endswith (tag root) ''serviceResponse'' \<and> children root = first # others
            \<and> endswith (tag first) ''authenticationSuccess''
            \<and> children first = before @ [Element utag (Some user) sub] @ after
            \<and> endswith utag ''user''
            \<and> (\<forall>c \<in> set after. \<not> endswith (tag c) ''user'') \<longrightarrow>
            (\<exists>attrs. parse_cas_response parser body = Inr (user, attrs)))"
proof (intro conjI impI)
  assume "\<not> endswith (tag root) ''serviceResponse''"
  with assms show "parse_cas_response parser body = Inl invalid_response"
    by (simp add: parse_cas_response_def parse_root_def)
next
  assume h: "endswith (tag root) ''serviceResponse'' \<and> children root = first # others
            \<and> endswith (tag first) ''authenticationSuccess''
            \<and> children first = before @ [Element utag (Some user) sub] @ after
            \<and> endswith utag ''user''
            \<and> (\<forall>c \<in> set after. \<not> endswith (tag c) ''user'')"
  then obtain attrs where
    "scan_children (children first) (None, []) = Some (Some user, attrs)"
    using scan_children_last_user [of "children first" before utag "Some user" sub after None "[]"]
    by blast
  with assms h have "parse_cas_response parser body = Inr (user, attrs)"
    by (simp add: parse_cas_response_def parse_root_def)
  then show "\<exists>attrs. parse_cas_response parser body = Inr (user, attrs)" ..
qed

text \<open>C4 at the two inputs of the specification: the root \<open>somethingElse\<close>, and a
  root, a first child and a user in the namespace \<open>urn:example\<close>.\<close>

theorem parse_cas_response_root_witness:
  "parse_cas_response (\<lambda>body. Some (Element ''somethingElse'' None
                       [Element ''authenticationSuccess'' None
                          [Element ''user'' (Some ''alice'') []]])) ''<somethingElse/>''
     = Inl (LoginError 401 ''Invalid CAS response'' UNAUTHORIZED)
   \<and> (\<exists>attrs. parse_cas_response
         (\<lambda>body. Some (Element ''{urn:example}serviceResponse'' None
                       [Element ''{urn:example}authenticationSuccess'' None
                          [Element ''{urn:example}user'' (Some ''alice'') []]]))
         ''<serviceResponse/>'' = Inr (''alice'', attrs))"
proof
  let ?root = "Element ''somethingElse'' None
                       [Element ''authenticationSuccess'' None
                          [Element ''user'' (Some ''alice'') []]]"
  have "\<not> endswith (tag ?root) ''serviceResponse''"
    by (simp add: endswith_def)
  with parse_cas_response_root [of "\<lambda>body. Some ?root" "''<somethingElse/>''" ?root]
  show "parse_cas_response (\<lambda>body. Some ?root) ''<somethingElse/>''
     = Inl (LoginError 401 ''Invalid CAS response'' UNAUTHORIZED)"
    by (simp add: invalid_response_def)
next
  let ?u = "Element ''{urn:example}user'' (Some ''alice'') []"
  let ?first = "Element ''{urn:example}authenticationSuccess'' None [?u]"
  let ?root = "Element ''{urn:example}serviceResponse'' None [?first]"
  have "endswith (tag ?root) ''serviceResponse''"
    and "endswith (tag ?first) ''authenticationSuccess''"
    and "endswith ''{urn:example}user'' ''user''"
    by (simp_all add: endswith_def)
  with parse_cas_response_root [of "\<lambda>body. Some ?root" "''<serviceResponse/>''" ?root
      ?first "[]" "[]" "''{urn:example}user''" "''alice''" "[]" "[]"]
  show "\<exists>attrs. parse_cas_response (\<lambda>body. Some ?root) ''<serviceResponse/>''
          = Inr (''alice'', attrs)"
    by simp
qed

subsection \<open>C5: an unsuccessful response, with and without a user\<close>

text \<open>
  Claim C5, as stated, makes \<open>_parse_cas_response\<close> fail with \<open>Unsuccessful CAS
  response\<close> whenever the first child is not \<open>authenticationSuccess\<close>, and with
  the missing-user error when the response is unsuccessful and lacks a user element.
  Lines 135 and 137 test the end of the tag. A first child \<open>xauthenticationSuccess\<close>
  is not \<open>authenticationSuccess\<close> and counts as success: the function returns its
  user. And an \<open>authenticationFailure\<close> with the one child \<open>superuser\<close> has no
  user element, yet that child gives the user: the error is \<open>Unsuccessful CAS
  response\<close>, not the missing user.
\<close>

theorem parse_cas_response_longer_first_name:
  "spec_local_name ''xauthenticationSuccess'' = ''xauthenticationSuccess''
   \<and> parse_cas_response
       (\<lambda>body. Some (Element ''serviceResponse'' None
                       [Element ''xauthenticationSuccess'' None
                          [Element ''user'' (Some ''alice'') []]]))
       ''<serviceResponse><xauthenticationSuccess><user>alice</user></xauthenticationSuccess></serviceResponse>''
     = Inr (''alice'', [])
   \<and> parse_cas_response
       (\<lambda>body. Some (Element ''serviceResponse'' None
                       [Element ''authenticationFailure'' None
                          [Element ''superuser'' (Some ''root'') []]]))
       ''<serviceResponse><authenticationFailure><superuser>root</superuser></authenticationFailure></serviceResponse>''
     = Inl (LoginError 401 ''Unsuccessful CAS response'' UNAUTHORIZED)"
  by (simp add: evaluate_parse spec_local_name_def unsuccessful_response_def)

text \<open>
  Claim C5, amended: for every body that parses to a root whose tag ends with
  \<open>serviceResponse\<close> and whose first child has a tag that does not end with
  \<open>authenticationSuccess\<close>, \<open>_parse_cas_response\<close> fails with \<open>Unsuccessful
  CAS response\<close> when the last of that child's children whose tag ends with
  \<open>user\<close> has a text, and with the invalid-response error when no child has such
  a tag, or the last one that has it has no text: the test of \<open>success\<close> comes
  after the test of the user.
\<close>

theorem parse_cas_response_unsuccessful:
  assumes "parser body = Some root"
    and "endswith (tag root) ''serviceResponse''"
    and "children root = first # others"
    and "\<not> endswith (tag first) ''authenticationSuccess''"
  shows "(children first = before @ [Element utag (Some user) sub] @ after
            \<and> endswith utag ''user''
            \<and> (\<forall>c \<in> set after. \<not> endswith (tag c) ''user'') \<longrightarrow>
            parse_cas_response parser body = Inl unsuccessful_response)
       \<and> ((\<forall>c \<in> set (children first). \<not> endswith (tag c) ''user'') \<longrightarrow>
            parse_cas_response parser body = Inl invalid_response)
       \<and> (children first = before @ [Element utag None sub] @ after
            \<and> endswith utag ''user''
            \<and> (\<forall>c \<in> set after. \<not> endswith (tag c) ''user'') \<longrightarrow>
            parse_cas_response parser body = Inl invalid_response)"
proof (intro conjI impI)
  assume h: "children first = before @ [Element utag (Some user) sub] @ after
            \<and> endswith utag ''user''
            \<and> (\<forall>c \<in> set after. \<not> endswith (tag c) ''user'')"
  then obtain attrs where
    "scan_children (children first) (None, []) = Some (Some user, attrs)"
    using scan_children_last_user [of "children first" before utag "Some user" sub after None "[]"]
    by blast
  with assms show "parse_cas_response parser body = Inl unsuccessful_response"
    by (simp add: parse_cas_response_def parse_root_def)
next
  assume "\<forall>c \<in> set (children first). \<not> endswith (tag c) ''user''"
  then obtain attrs where
    "scan_children (children first) (None, []) = Some (None, attrs)"
    using scan_children_no_user [of "children first" None "[]"] by blast
  with assms show "parse_cas_response parser body = Inl invalid_response"
    by (simp add: parse_cas_response_def parse_root_def)
next
  assume h: "children first = before @ [Element utag None sub] @ after
            \<and> endswith utag ''user''
            \<and> (\<forall>c \<in> set after. \<not> endswith (tag c) ''user'')"
  then obtain attrs where
    "scan_children (children first) (None, []) = Some (None, attrs)"
    using scan_children_last_user [of "children first" before utag None sub after None "[]"]
    by blast
  with assms show "parse_cas_response parser body = Inl invalid_response"
    by (simp add: parse_cas_response_def parse_root_def)
qed

text \<open>C5 at an \<open>authenticationFailure\<close> that holds the user \<open>alice\<close>, and at one
  that holds only its message.\<close>

theorem parse_cas_response_unsuccessful_witness:
  "parse_cas_response
     (\<lambda>body. Some (cas_response ''serviceResponse'' ''authenticationFailure'' ''alice'' []))
     ''<cas:serviceResponse/>''
   = Inl (LoginError 401 ''Unsuccessful CAS response'' UNAUTHORIZED)
   \<and> parse_cas_response
       (\<lambda>body. Some (Element ''{http://www.yale.edu/tp/cas}serviceResponse'' None
          [Element ''{http://www.yale.edu/tp/cas}authenticationFailure''
             (Some ''Ticket ST-1 not recognized'') []]))
       ''<cas:serviceResponse/>''
     = Inl (LoginError 401 ''Invalid CAS response'' UNAUTHORIZED)"
proof
  let ?u = "Element ''{http://www.yale.edu/tp/cas}user'' (Some ''alice'') []"
  let ?a = "Element ''{http://www.yale.edu/tp/cas}attributes'' None []"
  let ?first = "Element ''{http://www.yale.edu/tp/cas}authenticationFailure'' None [?u, ?a]"
  let ?root = "cas_response ''serviceResponse'' ''authenticationFailure'' ''alice'' []"
  have root: "?root = Element ''{http://www.yale.edu/tp/cas}serviceResponse'' None [?first]"
    by (simp add: cas_response_def)
  have "endswith (tag ?root) ''serviceResponse''"
    and "children ?root = ?first # []"
    and "\<not> endswith (tag ?first) ''authenticationSuccess''"
    and "children ?first = [] @ [?u] @ [?a]"
    and "endswith ''{http://www.yale.edu/tp/cas}user'' ''user''"
    and "\<forall>c \<in> set [?a]. \<not> endswith (tag c) ''user''"
    by (simp_all add: root endswith_def)
  with parse_cas_response_unsuccessful [of "\<lambda>body. Some ?root" "''<cas:serviceResponse/>''"
      ?root ?first "[]" "[]" "''{http://www.yale.edu/tp/cas}user''" "''alice''" "[]" "[?a]"]
  show "parse_cas_response (\<lambda>body. Some ?root) ''<cas:serviceResponse/>''
          = Inl (LoginError 401 ''Unsuccessful CAS response'' UNAUTHORIZED)"
    by (simp add: unsuccessful_response_def)
next
  let ?first = "Element ''{http://www.yale.edu/tp/cas}authenticationFailure''
             (Some ''Ticket ST-1 not recognized'') []"
  let ?root = "Element ''{http://www.yale.edu/tp/cas}serviceResponse'' None [?first]"
  have "endswith (tag ?root) ''serviceResponse''"
    and "\<not> endswith (tag ?first) ''authenticationSuccess''"
    by (simp_all add: endswith_def)
  with parse_cas_response_unsuccessful [of "\<lambda>body. Some ?root" "''<cas:serviceResponse/>''"
      ?root ?first "[]"]
  show "parse_cas_response (\<lambda>body. Some ?root) ''<cas:serviceResponse/>''
          = Inl (LoginError 401 ''Invalid CAS response'' UNAUTHORIZED)"
    by (simp add: invalid_response_def)
qed

subsection \<open>C6: the service parameter and the redirect URL\<close>

text \<open>
  Claim C6, as stated, gives two calls of \<open>_build_service_param\<close> the same string
  whenever their arguments hold the same key-value content. \<open>urlencode\<close> writes the
  pairs in the order of the dictionary: two dictionaries that are equal, as maps and
  for Python's \<open>==\<close>, give two strings when their keys were inserted in two orders.
\<close>

theorem build_service_param_key_order:
  "map_of [(''redirectUrl'', ''https://client.example/cb''), (''session'', ''abc'')]
     = map_of [(''session'', ''abc''), (''redirectUrl'', ''https://client.example/cb'')]
   \<and> build_service_param (example_config None [])
         [(''redirectUrl'', ''https://client.example/cb''), (''session'', ''abc'')]
       = ''https://matrix.example.org/_matrix/client/r0/login/cas/ticket?redirectUrl=https%3A%2F%2Fclient.example%2Fcb&session=abc''
   \<and> build_service_param (example_config None [])
         [(''session'', ''abc''), (''redirectUrl'', ''https://client.example/cb'')]
       = ''https://matrix.example.org/_matrix/client/r0/login/cas/ticket?session=abc&redirectUrl=https%3A%2F%2Fclient.example%2Fcb''"
proof (intro conjI)
  show "map_of [(''redirectUrl'', ''https://client.example/cb''), (''session'', ''abc'')]
     = map_of [(''session'', ''abc''), (''redirectUrl'', ''https://client.example/cb'')]"
    by (rule ext) simp
qed (simp_all add: evaluate_urlencode example_config_def)

text \<open>
  Claim C6, amended: \<open>_build_service_param\<close> is a function of the configuration and
  of its argument as an ordered dictionary: it is the service URL, the path of the
  ticket servlet, \<open>?\<close> and \<open>urlencode\<close> of the argument, and two arguments with
  the same key-value content give the same string exactly when their keys come in the
  same order; \<open>get_redirect_url\<close> is the CAS server's URL, \<open>/login?service=\<close> and
  the service parameter quoted by \<open>quote_plus\<close>.
\<close>

theorem build_service_param_deterministic:
  assumes "distinct (map fst args1)" and "map_of args1 = map_of args2"
  shows "(build_service_param cfg args1 = build_service_param cfg args2
            \<longleftrightarrow> map fst args1 = map fst args2)
       \<and> build_service_param cfg args1
           = cas_service_url cfg @ ''/_matrix/client/r0/login/cas/ticket?'' @ urlencode args1
       \<and> get_redirect_url cfg args1
           = cas_server_url cfg @ ''/login?service='' @ quote_plus (build_service_param cfg args1)"
proof (intro conjI)
  show "build_service_param cfg args1 = build_service_param cfg args2
          \<longleftrightarrow> map fst args1 = map fst args2"
  proof
    assume "build_service_param cfg args1 = build_service_param cfg args2"
    then have "args1 = args2" by (simp only: build_service_param_inject)
    then show "map fst args1 = map fst args2" by simp
  next
    assume "map fst args1 = map fst args2"
    with assms have "args1 = args2" by (intro dict_eqI)
    then show "build_service_param cfg args1 = build_service_param cfg args2" by simp
  qed
  show "build_service_param cfg args1
           = cas_service_url cfg @ ''/_matrix/client/r0/login/cas/ticket?'' @ urlencode args1"
    by (simp add: build_service_param_def)
  have "quote_plus ''service'' = ''service''"
    by (simp add: quote_plus_def quote_byte_def always_safe_def)
  then show "get_redirect_url cfg args1
           = cas_server_url cfg @ ''/login?service='' @ quote_plus (build_service_param cfg args1)"
    by (simp add: get_redirect_url_def urlencode_def)
qed

text \<open>
  C6 at a dictionary of two keys: the string it gives, the redirect URL, and the other
  string that the same pairs give in the other order.
\<close>

theorem build_service_param_deterministic_witness:
  "build_service_param (example_config None [])
     [(''redirectUrl'', ''https://client.example/cb''), (''session'', ''s1'')]
   \<noteq> build_service_param (example_config None [])
     [(''session'', ''s1''), (''redirectUrl'', ''https://client.example/cb'')]
   \<and> build_service_param (example_config None [])
     [(''redirectUrl'', ''https://client.example/cb''), (''session'', ''s1'')]
     = ''https://matrix.example.org/_matrix/client/r0/login/cas/ticket?redirectUrl=https%3A%2F%2Fclient.example%2Fcb&session=s1''
   \<and> get_redirect_url (example_config None [])
     [(''redirectUrl'', ''https://client.example/cb''), (''session'', ''s1'')]
     = ''https://cas.example.org/login?service=https%3A%2F%2Fmatrix.example.org%2F_matrix%2Fclient%2Fr0%2Flogin%2Fcas%2Fticket%3FredirectUrl%3Dhttps%253A%252F%252Fclient.example%252Fcb%26session%3Ds1''"
proof -
  let ?a = "[(''redirectUrl'', ''https://client.example/cb''), (''session'', ''s1'')]"
  let ?b = "[(''session'', ''s1''), (''redirectUrl'', ''https://client.example/cb'')]"
  let ?cfg = "example_config None []"
  have d: "distinct (map fst ?a)" by simp
  have m: "map_of ?a = map_of ?b" by (rule ext) simp
  have k: "map fst ?a \<noteq> map fst ?b" by simp
  have u: "urlencode ?a = ''redirectUrl=https%3A%2F%2Fclient.example%2Fcb&session=s1''"
    by (simp add: urlencode_def quote_plus_def quote_byte_def always_safe_def hex_digit_def)
  have q: "quote_plus ''https://matrix.example.org/_matrix/client/r0/login/cas/ticket?redirectUrl=https%3A%2F%2Fclient.example%2Fcb&session=s1''
     = ''https%3A%2F%2Fmatrix.example.org%2F_matrix%2Fclient%2Fr0%2Flogin%2Fcas%2Fticket%3FredirectUrl%3Dhttps%253A%252F%252Fclient.example%252Fcb%26session%3Ds1''"
    by (simp add: quote_plus_def quote_byte_def always_safe_def hex_digit_def)
  from build_service_param_deterministic [OF d m, of ?cfg]
  have t1: "build_service_param ?cfg ?a = build_service_param ?cfg ?b
              \<longleftrightarrow> map fst ?a = map fst ?b"
    and t2: "build_service_param ?cfg ?a
               = cas_service_url ?cfg @ ''/_matrix/client/r0/login/cas/ticket?'' @ urlencode ?a"
    and t3: "get_redirect_url ?cfg ?a
               = cas_server_url ?cfg @ ''/login?service='' @ quote_plus (build_service_param ?cfg ?a)"
    by blast+
  from t1 k have c1: "build_service_param ?cfg ?a \<noteq> build_service_param ?cfg ?b"
    by blast
  have c2: "build_service_param ?cfg ?a
     = ''https://matrix.example.org/_matrix/client/r0/login/cas/ticket?redirectUrl=https%3A%2F%2Fclient.example%2Fcb&session=s1''"
    unfolding t2 u by (simp add: example_config_def)
  have c3: "get_redirect_url ?cfg ?a
     = ''https://cas.example.org/login?service=https%3A%2F%2Fmatrix.example.org%2F_matrix%2Fclient%2Fr0%2Flogin%2Fcas%2Fticket%3FredirectUrl%3Dhttps%253A%252F%252Fclient.example%252Fcb%26session%3Ds1''"
    unfolding t3 c2 q by (simp add: example_config_def)
  from c1 c2 c3 show ?thesis by blast
qed

subsection \<open>C7: a partial download is a download\<close>

text \<open>
  Claim C7: when the GET of \<open>_validate_ticket\<close> raises \<open>PartialDownloadError\<close>,
  the body that the error carries is parsed and checked as the body of a successful
  GET is, with the same result; every other failure of the GET is raised by
  \<open>_validate_ticket\<close> as it came.
\<close>

theorem validate_ticket_partial_download:
  assumes "get_raw env (cas_server_url (config env) @ ''/proxyValidate'')
             [(''ticket'', ticket),
              (''service'', build_service_param (config env) service_args)] = result"
  shows "(result = PartialDownloadError body \<longrightarrow>
            validate_ticket env ticket service_args = validate_body env body
          \<and> validate_ticket env ticket service_args
              = validate_ticket (env\<lparr>get_raw := \<lambda>uri args. Body body\<rparr>) ticket service_args)
       \<and> (result = Failed e \<longrightarrow> validate_ticket env ticket service_args = Inl (HttpFailure e))"
proof -
  have "validate_body (env\<lparr>get_raw := \<lambda>uri args. Body body\<rparr>) body = validate_body env body"
    by (simp add: validate_body_def split: sum.split prod.split)
  with assms show ?thesis
    by (auto simp add: validate_ticket_def)
qed

text \<open>
  C7 at a partial download of a successful response, and at a refused connection.
\<close>

theorem validate_ticket_partial_download_witness:
  "validate_ticket
     ((example_env (example_config None [])
         (cas_response ''serviceResponse'' ''authenticationSuccess'' ''alice'' []))
      \<lparr>get_raw := \<lambda>uri args. PartialDownloadError ''<cas:serviceResponse/>''\<rparr>)
     ''ST-1'' []
   = Inr (''alice'', None)
   \<and> validate_ticket
     ((example_env (example_config None [])
         (cas_response ''serviceResponse'' ''authenticationSuccess'' ''alice'' []))
      \<lparr>get_raw := \<lambda>uri args. Failed ''ConnectionRefusedError''\<rparr>)
     ''ST-1'' []
   = Inl (HttpFailure ''ConnectionRefusedError'')"
proof
  let ?env = "example_env (example_config None [])
         (cas_response ''serviceResponse'' ''authenticationSuccess'' ''alice'' [])"
  let ?p = "?env\<lparr>get_raw := \<lambda>uri args. PartialDownloadError ''<cas:serviceResponse/>''\<rparr>"
  have "validate_body ?p ''<cas:serviceResponse/>'' = Inr (''alice'', None)"
    by (simp add: evaluate_validate)
  with validate_ticket_partial_download [of ?p "''ST-1''" "[]"
      "PartialDownloadError ''<cas:serviceResponse/>''" "''<cas:serviceResponse/>''"]
  show "validate_ticket ?p ''ST-1'' [] = Inr (''alice'', None)"
    by simp
next
  let ?env = "example_env (example_config None [])
         (cas_response ''serviceResponse'' ''authenticationSuccess'' ''alice'' [])"
  let ?f = "?env\<lparr>get_raw := \<lambda>uri args. Failed ''ConnectionRefusedError''\<rparr>"
  from validate_ticket_partial_download [of ?f "''ST-1''" "[]"
      "Failed ''ConnectionRefusedError''" _ "''ConnectionRefusedError''"]
  show "validate_ticket ?f ''ST-1'' [] = Inl (HttpFailure ''ConnectionRefusedError'')"
    by simp
qed

subsection \<open>C8: the lookup of an account registered before\<close>

text \<open>
  Claim C8: \<open>grandfather_existing_users\<close> maps the remote user name with
  \<open>map_username_to_mxid_localpart\<close>, asks the data store's case-insensitive lookup
  for the user id \<open>@localpart:hostname\<close>, and returns the first of the stored ids
  the store gives, or nothing when it gives none.
\<close>

theorem grandfather_existing_users_first_match:
  assumes "get_users_by_id_case_insensitive env
             (''@'' @ map_username_to_mxid_localpart env remote_user_id @ '':''
                @ hostname (config env)) = users"
  shows "grandfather_existing_users env remote_user_id ()
           = (case users of [] \<Rightarrow> None | (user_id, password_hash) # others \<Rightarrow> Some user_id)"
  using assms by (simp add: grandfather_existing_users_def to_string_def split: list.splits)

text \<open>
  C8 at the remote user \<open>Alice\<close>, whose account \<open>@Alice:example.org\<close> the
  store holds, and at \<open>bob\<close>, who has none.
\<close>

theorem grandfather_existing_users_first_match_witness:
  "grandfather_existing_users (example_env (example_config None []) (Element [] None []))
     ''Alice'' () = Some ''@Alice:example.org''
   \<and> grandfather_existing_users (example_env (example_config None []) (Element [] None []))
     ''bob'' () = None"
  using grandfather_existing_users_first_match
      [of "example_env (example_config None []) (Element [] None [])" "''Alice''"
          "[(''@Alice:example.org'', ''$2b$12$hash'')]"]
    grandfather_existing_users_first_match
      [of "example_env (example_config None []) (Element [] None [])" "''bob''" "[]"]
  by (simp add: example_env_def example_config_def)

subsection \<open>C9: the attribute callback and the count of failures\<close>

text \<open>
  Claim C9: \<open>cas_response_to_user_attributes\<close> raises \<open>RuntimeError\<close> whenever
  the count of failures is greater than zero, and at zero returns the attributes
  whose localpart is the mapped remote user name and whose display name is the one
  extracted from the response.
\<close>

theorem cas_response_to_user_attributes_failures:
  "(0 < failures \<longrightarrow>
      cas_response_to_user_attributes env remote_user_id displayname failures
        = Inl (RuntimeError ''CAS is not expected to de-duplicate Matrix IDs''))
   \<and> (failures = 0 \<longrightarrow>
      cas_response_to_user_attributes env remote_user_id displayname failures
        = Inr \<lparr>localpart = map_username_to_mxid_localpart env remote_user_id,
               display_name = displayname\<rparr>)"
  by (simp add: cas_response_to_user_attributes_def)

text \<open>
  C9 at one failure and at none.
\<close>

theorem cas_response_to_user_attributes_failures_witness:
  "cas_response_to_user_attributes (example_env (example_config None []) (Element [] None []))
     ''Alice'' (Some ''Alice A'') 1
     = Inl (RuntimeError ''CAS is not expected to de-duplicate Matrix IDs'')
   \<and> cas_response_to_user_attributes (example_env (example_config None []) (Element [] None []))
     ''Alice'' (Some ''Alice A'') 0
     = Inr \<lparr>localpart = ''alice'', display_name = Some ''Alice A''\<rparr>"
  using cas_response_to_user_attributes_failures
      [of 1 "example_env (example_config None []) (Element [] None [])" "''Alice''"
          "Some ''Alice A''"]
    cas_response_to_user_attributes_failures
      [of 0 "example_env (example_config None []) (Element [] None [])" "''Alice''"
          "Some ''Alice A''"]
  by (simp add: example_env_def)

subsection \<open>C10: the end of \<open>handle_ticket\<close> without a session\<close>

text \<open>
  Claim C10: in \<open>handle_ticket\<close>, when no session was supplied (none, or the empty
  string), the ticket validates and the user maps to a user id, a redirect URL that is
  not empty passes the assertion and \<open>complete_sso_login\<close> is called with it; with
  no redirect URL either (none, or the empty string) the assertion fails and neither
  completion is called.
\<close>

theorem handle_ticket_no_session:
  assumes "truthy session = None"
    and "validate_ticket env ticket
           (case truthy client_redirect_url of
              None \<Rightarrow> []
            | Some url \<Rightarrow> [(''redirectUrl'', url)]) = Inr (username, user_display_name)"
    and "map_cas_user_to_matrix_user env username user_display_name (user_agent req) (ip req)
           = Inr user_id"
  shows "handle_ticket env req ticket client_redirect_url session
           = (case truthy client_redirect_url of
                Some url \<Rightarrow> Inr (Complete_sso_login user_id req url)
              | None \<Rightarrow> Inl AssertionError)"
  using assms by (simp add: handle_ticket_def split: option.splits)

text \<open>
  C10 at the ticket \<open>T1\<close> of the user \<open>bob\<close>: with the redirect URL
  \<open>https://client.example/cb\<close> and no session, and with neither.
\<close>

theorem handle_ticket_no_session_witness:
  "handle_ticket
     (example_env (example_config None [])
        (cas_response ''serviceResponse'' ''authenticationSuccess'' ''bob'' []))
     \<lparr>user_agent = ''Mozilla/5.0'', ip = ''192.0.2.1''\<rparr> ''T1''
     (Some ''https://client.example/cb'') None
   = Inr (Complete_sso_login ''@bob:example.org''
            \<lparr>user_agent = ''Mozilla/5.0'', ip = ''192.0.2.1''\<rparr> ''https://client.example/cb'')
   \<and> handle_ticket
     (example_env (example_config None [])
        (cas_response ''serviceResponse'' ''authenticationSuccess'' ''bob'' []))
     \<lparr>user_agent = ''Mozilla/5.0'', ip = ''192.0.2.1''\<rparr> ''T1'' None (Some '''')
   = Inl AssertionError"
proof
  let ?env = "example_env (example_config None [])
        (cas_response ''serviceResponse'' ''authenticationSuccess'' ''bob'' [])"
  let ?req = "\<lparr>user_agent = ''Mozilla/5.0'', ip = ''192.0.2.1''\<rparr>"
  have v: "validate_ticket ?env ''T1'' args = Inr (''bob'', None)" for args
    by (simp add: evaluate_validate)
  have m: "map_cas_user_to_matrix_user ?env ''bob'' None (user_agent ?req) (ip ?req)
             = Inr ''@bob:example.org''"
    by (simp add: map_cas_user_to_matrix_user_def example_env_def example_config_def
        grandfather_existing_users_def cas_response_to_user_attributes_def to_string_def)
  have t: "truthy None = None" "truthy (Some '''') = None"
    "truthy (Some ''https://client.example/cb'') = Some ''https://client.example/cb''"
    by (simp_all add: truthy_def)
  from handle_ticket_no_session [of None ?env "''T1''" "Some ''https://client.example/cb''"
      "''bob''" None ?req "''@bob:example.org''"] v m t
  show "handle_ticket ?env ?req ''T1'' (Some ''https://client.example/cb'') None
          = Inr (Complete_sso_login ''@bob:example.org'' ?req ''https://client.example/cb'')"
    by simp
  from handle_ticket_no_session [of "Some ''''" ?env "''T1''" None
      "''bob''" None ?req "''@bob:example.org''"] v m t
  show "handle_ticket ?env ?req ''T1'' None (Some '''')
          = Inl AssertionError"
    by simp
qed

end
